theory Spec2Isabelle
  imports
    Main
    "HOL-Library.Word"
    "HOL-Library.Signed_Division"
    "HOL-Library.Stream"
    "HOL-Library.Monad_Syntax"
begin

unbundle bit_operations_syntax

section \<open>The GUID generator of \<open>main.cc\<close>\<close>

text \<open>
  The development embeds the core of \<open>src/main.cc\<close>: \<open>arith::rotl\<close>, the seed
  derivation \<open>mkseed\<close>, \<open>generate_guid\<close> and \<open>to_string\<close>.

  Conventions of the embedding.
  \<^item> An unsigned integral type \<open>T\<close> of the program is the word type \<open>'a word\<close> of its
    width, so that \<open>sizeof(T) * 8\<close> is \<open>LENGTH('a)\<close>. The seed type of the program,
    \<open>decltype(mt19937::default_seed)\<close>, is \<open>uint_fast32_t\<close>; its width depends on the
    platform (32 or 64 bits are both common), hence the type variable.
  \<^item> Operations whose behaviour is undefined in C++ for some operands (a shift by a
    negative amount or by the width or more, an array access out of range) return
    \<open>None\<close> there. A function of the program that reaches such an operation returns
    \<open>None\<close>; everything else returns \<open>Some\<close>.
  \<^item> \<open>std::random_device\<close> is the stream of the 32-bit values that the platform
    will deliver; a function that draws from it returns the rest of the stream.
  \<^item> What the program takes from the C++ standard library without defining it (the
    engine \<open>std::mt19937\<close>, the signedness of \<open>char\<close>) is a parameter, the record
    \<open>stdlib\<close>.
\<close>

subsection \<open>Types and the standard library\<close>

type_synonym uint8_t = "8 word"

text \<open>\<open>typedef std::array<uint8_t, 16> guid_data_t\<close> (line 53).\<close>

type_synonym guid_data_t = "uint8_t list"

type_synonym random_device = "32 word stream"

text \<open>
  \<open>mt19937\<close> is the constructor of an engine from a seed value, \<open>mt_call\<close> is
  \<open>operator()\<close>: it returns the next value and the advanced engine. \<open>'w\<close> is the
  engine's \<open>result_type\<close>, which is also the seed type of the program.
\<close>

record ('w, 'e) stdlib =
  char_is_signed :: bool
  mt19937 :: "'w \<Rightarrow> 'e"
  mt_call :: "'e \<Rightarrow> 'w \<times> 'e"

text \<open>\<open>mt19937::default_seed\<close>, the seed of a default-constructed engine.\<close>

definition default_seed :: "'a::len word" where
  "default_seed = 5489"

text \<open>\<open>#define SEED_OFFSET (0x271d8a39u)\<close> (lines 25 to 27).\<close>

definition SEED_OFFSET :: "'a::len word" where
  "SEED_OFFSET = 0x271d8a39"

subsection \<open>Shifts\<close>

text \<open>
  \<open>x << k\<close> and \<open>x >> k\<close> on an unsigned operand of the width of \<open>int\<close> or more:
  defined for \<open>0 \<le> k < N\<close> only.
\<close>

definition shl :: "'a::len word \<Rightarrow> int \<Rightarrow> 'a word option" where
  "shl x k = (if 0 \<le> k \<and> k < int LENGTH('a) then Some (push_bit (nat k) x) else None)"

definition shr :: "'a::len word \<Rightarrow> int \<Rightarrow> 'a word option" where
  "shr x k = (if 0 \<le> k \<and> k < int LENGTH('a) then Some (drop_bit (nat k) x) else None)"

subsection \<open>\<open>arith::rotl\<close> (lines 40 to 47)\<close>

text \<open>
  \<open>s % N\<close> on \<open>int\<close> truncates towards zero: it is \<open>smod\<close>, not \<open>mod\<close>. The
  parameter \<open>s\<close> is an \<open>int\<close> of the program; the arithmetic on it (\<open>s % N\<close>,
  \<open>N - r\<close>, \<open>- r\<close>, \<open>N + r\<close>) cannot overflow, since \<open>\<bar>r\<bar> < N\<close>, so the
  unbounded integers of HOL compute the same values.
\<close>

definition rotl :: "'a::len word \<Rightarrow> int \<Rightarrow> 'a word option" where
  "rotl x s =
     (let N = int LENGTH('a);
          r = s smod N
      in if r = 0 then Some x
         else if r > 0 then
           do { a \<leftarrow> shl x r; b \<leftarrow> shr x ((N - r) smod N); Some (a OR b) }
         else
           do { a \<leftarrow> shr x (- r); b \<leftarrow> shl x ((N + r) smod N); Some (a OR b) })"

text \<open>
  The operands of the shifts that \<open>rotl\<close> evaluates for the rotation amount \<open>s\<close>,
  in the order of the source expression; none when \<open>r = 0\<close>.
\<close>

definition rotl_shift_amounts :: "'a::len itself \<Rightarrow> int \<Rightarrow> int list" where
  "rotl_shift_amounts T s =
     (let N = int LENGTH('a);
          r = s smod N
      in if r = 0 then []
         else if r > 0 then [r, (N - r) smod N]
         else [- r, (N + r) smod N])"

text \<open>
  The rotation as the specification words it: a circular rotation to the left by the
  rotation amount normalised into \<open>[0, N)\<close>.
\<close>

definition rotate_left :: "'a::len word \<Rightarrow> int \<Rightarrow> 'a word" where
  "rotate_left x s = word_rotl (nat (s mod int LENGTH('a))) x"

subsection \<open>The static assertion of \<open>generate_guid\<close> (lines 67 and 68)\<close>

definition sizeof :: "'a::len itself \<Rightarrow> nat" where
  "sizeof T = LENGTH('a) div 8"

definition seed_type_accepted :: "'a::len itself \<Rightarrow> bool" where
  "seed_type_accepted T = (sizeof TYPE(32) \<le> sizeof T)"

subsection \<open>\<open>mkseed\<close> (lines 72 to 80)\<close>

text \<open>
  \<open>seed_type(b)\<close> for an element \<open>b\<close> of the seed container. The container of the
  program is a \<open>std::string\<close>; its elements are \<open>char\<close>, which is sign-extended
  where \<open>char\<close> is signed and zero-extended where it is not.
\<close>

definition seed_type_of_char :: "bool \<Rightarrow> uint8_t \<Rightarrow> 'a::len word" where
  "seed_type_of_char sgnd b = (if sgnd then scast b else ucast b)"

text \<open>\<open>std::accumulate(first, last, init, op)\<close> with an operation that may be undefined.\<close>

fun accumulate :: "'b list \<Rightarrow> 's \<Rightarrow> ('s \<Rightarrow> 'b \<Rightarrow> 's option) \<Rightarrow> 's option" where
  "accumulate [] init binop = Some init"
| "accumulate (b # bs) init binop = do { acc \<leftarrow> binop init b; accumulate bs acc binop }"

definition mkseed ::
  "('a::len word, 'e) stdlib \<Rightarrow> random_device \<Rightarrow> uint8_t list \<Rightarrow> 'a word \<Rightarrow> int
     \<Rightarrow> ('a word \<times> random_device) option" where
  "mkseed L rd seed ofs rot =
     (if seed = [] then
        do { v \<leftarrow> rotl (ucast (shd rd)) rot; Some (v, stl rd) }
      else
        do { v \<leftarrow> accumulate seed ofs (\<lambda>acc b. do {
               hi \<leftarrow> shl acc 8;
               rotl (acc XOR (hi OR seed_type_of_char (char_is_signed L) b)) rot });
             Some (v, rd) })"

text \<open>
  The fold of the specification: the accumulator starts at the offset, and each byte
  \<open>b\<close> replaces it by \<open>rotate_left (acc XOR ((acc << 8) OR ScalarSeed b)) rotation\<close>.
  The conversion \<open>ScalarSeed\<close> is the argument \<open>scalar\<close>: \<open>ucast\<close> is the value of
  the byte, \<open>scast\<close> the value of the byte read as a signed \<open>char\<close>.
\<close>

definition expand_fold :: "('b \<Rightarrow> 'a::len word) \<Rightarrow> 'b list \<Rightarrow> 'a word \<Rightarrow> int \<Rightarrow> 'a word" where
  "expand_fold scalar seed ofs rot =
     foldl (\<lambda>acc b. rotate_left (acc XOR (push_bit 8 acc OR scalar b)) rot) ofs seed"

subsection \<open>\<open>generate_guid\<close> (lines 63 to 93)\<close>

text \<open>\<open>mt[k] = g\<close> and \<open>mt[k]()\<close> on the array of engines.\<close>

definition mt_assign :: "'e list \<Rightarrow> nat \<Rightarrow> 'e \<Rightarrow> 'e list option" where
  "mt_assign mt k g = (if k < length mt then Some (mt[k := g]) else None)"

definition mt_at :: "('w, 'e) stdlib \<Rightarrow> 'e list \<Rightarrow> nat \<Rightarrow> ('w \<times> 'e list) option" where
  "mt_at L mt k =
     (if k < length mt then (let (v, g) = mt_call L (mt ! k) in Some (v, mt[k := g]))
      else None)"

text \<open>Lines 83 to 87: the array of four engines and their seeds.\<close>

definition seed_engines ::
  "('a::len word, 'e) stdlib \<Rightarrow> random_device \<Rightarrow> uint8_t list
     \<Rightarrow> ('e list \<times> random_device) option" where
  "seed_engines L rd seed = do {
     mt \<leftarrow> Some (replicate 4 (mt19937 L default_seed));
     (s0, rd) \<leftarrow> mkseed L rd seed SEED_OFFSET 0;
     mt \<leftarrow> mt_assign mt 0 (mt19937 L s0);
     (v0, mt) \<leftarrow> mt_at L mt 0;
     (s1, rd) \<leftarrow> mkseed L rd seed v0 7;
     mt \<leftarrow> mt_assign mt 1 (mt19937 L s1);
     (v1, mt) \<leftarrow> mt_at L mt 1;
     (s2, rd) \<leftarrow> mkseed L rd seed v1 11;
     mt \<leftarrow> mt_assign mt 2 (mt19937 L s2);
     (v2, mt) \<leftarrow> mt_at L mt 2;
     (s3, rd) \<leftarrow> mkseed L rd seed v2 13;
     mt \<leftarrow> mt_assign mt 3 (mt19937 L s3);
     Some (mt, rd) }"

text \<open>
  Lines 90 and 91: the loop over the elements of \<open>data\<close>, with the counter \<open>i\<close>
  incremented before each call. It returns the bytes, the engines and the counter.
\<close>

fun fill ::
  "('a::len word, 'e) stdlib \<Rightarrow> uint8_t list \<Rightarrow> 'e list \<Rightarrow> int
     \<Rightarrow> (uint8_t list \<times> 'e list \<times> int) option" where
  "fill L [] mt i = Some ([], mt, i)"
| "fill L (e # data) mt i = do {
     (v, mt') \<leftarrow> mt_at L mt (nat ((i + 1) AND 3));
     (data', mt'', i') \<leftarrow> fill L data mt' (i + 1);
     Some (ucast v # data', mt'', i') }"

definition generate_guid ::
  "('a::len word, 'e) stdlib \<Rightarrow> random_device \<Rightarrow> uint8_t list
     \<Rightarrow> (guid_data_t \<times> random_device) option" where
  "generate_guid L rd seed = do {
     (mt, rd') \<leftarrow> seed_engines L rd seed;
     (data, mt', i) \<leftarrow> fill L (replicate 16 0) mt 0;
     Some (data, rd') }"

text \<open>
  The template \<open>generate_guid\<close> instantiated at a seed type: the static assertion
  is decided before the function exists, so its failure is no value of the function.
\<close>

datatype build_error = Static_Assert_Failed string

definition instantiate_generate_guid ::
  "'a::len itself \<Rightarrow>
     build_error + (('a word, 'e) stdlib \<Rightarrow> random_device \<Rightarrow> uint8_t list
                      \<Rightarrow> (guid_data_t \<times> random_device) option)" where
  "instantiate_generate_guid T =
     (if sizeof TYPE(32) \<le> sizeof T then Inr generate_guid
      else Inl (Static_Assert_Failed ''Seeds need to be at least 32bit.''))"

text \<open>
  The values an engine delivers: \<open>mt_discard L n g\<close> is the engine \<open>g\<close> after \<open>n\<close>
  calls, \<open>mt_output L g n\<close> is the value of call number \<open>n\<close>, counted from 0.
\<close>

fun mt_discard :: "('w, 'e) stdlib \<Rightarrow> nat \<Rightarrow> 'e \<Rightarrow> 'e" where
  "mt_discard L 0 g = g"
| "mt_discard L (Suc n) g = mt_discard L n (snd (mt_call L g))"

definition mt_output :: "('w, 'e) stdlib \<Rightarrow> 'e \<Rightarrow> nat \<Rightarrow> 'w" where
  "mt_output L g n = fst (mt_call L (mt_discard L n g))"

subsection \<open>\<open>to_string\<close> (lines 103 to 116)\<close>

text \<open>
  \<open>ss << setfill('0') << setw(2) << uppercase << hex << int(e)\<close>: the digits of a
  non-negative \<open>int\<close> in base 16 with upper-case letters and no leading zero, then
  padded on the left to the field width. The width applies to this one output only;
  the hyphen is written with width 0.
\<close>

definition hex_digit_upper :: "nat \<Rightarrow> char" where
  "hex_digit_upper d = ''0123456789ABCDEF'' ! d"

fun hex_upper :: "nat \<Rightarrow> string" where
  "hex_upper n =
     (if n < 16 then [hex_digit_upper n]
      else hex_upper (n div 16) @ [hex_digit_upper (n mod 16)])"

declare hex_upper.simps [simp del]

definition setw_fill :: "nat \<Rightarrow> char \<Rightarrow> string \<Rightarrow> string" where
  "setw_fill w c s = replicate (w - length s) c @ s"

fun to_string_loop :: "uint8_t list \<Rightarrow> nat \<Rightarrow> string \<Rightarrow> string" where
  "to_string_loop [] i ss = ss"
| "to_string_loop (e # data) i ss =
     (let ss1 = ss @ setw_fill 2 (CHR ''0'') (hex_upper (unat e));
          i1 = i + 1;
          ss2 = (if i1 = 4 \<or> i1 = 6 \<or> i1 = 8 \<or> i1 = 10 then ss1 @ ''-'' else ss1)
      in to_string_loop data i1 ss2)"

definition to_string :: "guid_data_t \<Rightarrow> string" where
  "to_string data = to_string_loop data 0 []"

text \<open>The rendering of the specification: two digits for a byte, high digit first.\<close>

definition hex2 :: "uint8_t \<Rightarrow> string" where
  "hex2 e = [hex_digit_upper (unat e div 16), hex_digit_upper (unat e mod 16)]"

subsection \<open>A stand-in for the standard library\<close>

text \<open>
  The theorems below hold for every engine. Where one of them is instantiated at
  concrete values, the engine is this linear congruential generator: its state is the
  last value, the seed is the first state. It is not the engine of the program; \<open>char\<close>
  is signed, as on x86.
\<close>

definition lcg :: "('a::len word, 'a word) stdlib" where
  "lcg = \<lparr>char_is_signed = True,
           mt19937 = (\<lambda>value. value),
           mt_call = (\<lambda>g. (1664525 * g + 1013904223, 1664525 * g + 1013904223))\<rparr>"

section \<open>Rotation\<close>

lemma smod_by_mod:
  fixes s N :: int
  assumes "0 < N"
  shows "s smod N = (if 0 \<le> s \<or> s mod N = 0 then s mod N else s mod N - N)"
proof (cases "0 \<le> s")
  case True
  with assms show ?thesis
    by (cases "s = 0") (simp_all add: smod_int_alt_def)
next
  case False
  then have "s smod N = - ((- s) mod N)"
    using assms by (simp add: smod_int_alt_def)
  then show ?thesis
    using False by (simp add: zmod_zminus1_eq_if)
qed

lemma smod_range:
  fixes s N :: int
  assumes "0 < N"
  shows "- N < s smod N \<and> s smod N < N"
proof -
  have "0 \<le> s mod N" and "s mod N < N"
    using assms by simp_all
  then show ?thesis
    unfolding smod_by_mod [OF assms] by auto
qed

lemma smod_small:
  fixes k N :: int
  shows "0 \<le> k \<Longrightarrow> k < N \<Longrightarrow> k smod N = k"
  by (simp add: smod_by_mod)

lemma smod_cases:
  fixes s N :: int
  assumes "0 < N"
  shows "(s smod N = 0 \<longrightarrow> s mod N = 0) \<and>
         (0 < s smod N \<longrightarrow> s mod N = s smod N) \<and>
         (s smod N < 0 \<longrightarrow> s mod N = N + s smod N)"
proof -
  have "0 \<le> s mod N" and "s mod N < N"
    using assms by simp_all
  then show ?thesis
    unfolding smod_by_mod [OF assms] by auto
qed

lemma smod_mod_cong:
  fixes s N :: int
  assumes "0 < N"
  shows "(s smod N) mod N = s mod N"
  by (simp add: smod_by_mod [OF assms])

lemma neg_as_complement:
  fixes s t N :: int
  assumes "t mod N = s mod N"
  shows "(- s) mod N = (N - t) mod N"
proof -
  have "(N - t) mod N = (- t) mod N"
    by simp
  also have "\<dots> = (- (t mod N)) mod N"
    by (simp add: mod_minus_eq)
  also have "\<dots> = (- s) mod N"
    by (simp add: assms mod_minus_eq)
  finally show ?thesis by simp
qed

lemma shl_or_shr_is_rotation:
  fixes x :: "'a::len word"
  assumes "0 < k" and "k < LENGTH('a)"
  shows "push_bit k x OR drop_bit (LENGTH('a) - k) x = word_rotl k x"
proof (rule bit_word_eqI)
  fix n
  assume n: "n < LENGTH('a)"
  have high: "\<not> bit x (LENGTH('a) - k + n)" if "k \<le> n"
    using that assms bit_imp_le_length [of x "LENGTH('a) - k + n"] by auto
  show "bit (push_bit k x OR drop_bit (LENGTH('a) - k) x) n = bit (word_rotl k x) n"
  proof (cases "k \<le> n")
    case True
    then have "(n + (LENGTH('a) - k mod LENGTH('a))) mod LENGTH('a) = n - k"
      using assms n by (simp add: mod_if)
    then have "bit (word_rotl k x) n = bit x (n - k)"
      using n by (simp only: bit_word_rotl_iff) simp
    moreover have "bit (push_bit k x) n = bit x (n - k)"
      using True n by (simp add: bit_push_bit_iff)
    moreover have "\<not> bit (drop_bit (LENGTH('a) - k) x) n"
      using high [OF True] by (simp add: bit_drop_bit_eq)
    ultimately show ?thesis
      by (simp add: bit_or_iff)
  next
    case False
    then have "(n + (LENGTH('a) - k mod LENGTH('a))) mod LENGTH('a) = LENGTH('a) - k + n"
      using assms n by (simp add: add.commute)
    then have "bit (word_rotl k x) n = bit x (LENGTH('a) - k + n)"
      using n by (simp only: bit_word_rotl_iff) simp
    moreover have "\<not> bit (push_bit k x) n"
      using False by (simp add: bit_push_bit_iff)
    moreover have "bit (drop_bit (LENGTH('a) - k) x) n = bit x (LENGTH('a) - k + n)"
      by (simp add: bit_drop_bit_eq)
    ultimately show ?thesis
      by (simp add: bit_or_iff)
  qed
qed

lemma word_rotl_zero: "word_rotl 0 x = x"
  by (rule bit_word_eqI) (simp add: bit_word_rotl_iff)

lemma rotl_is_rotate_left: "rotl x s = Some (rotate_left x s)"
proof -
  define N where "N = int LENGTH('a)"
  define r where "r = s smod N"
  have N: "0 < N" by (simp add: N_def)
  consider "r = 0" | "0 < r" | "r < 0" by linarith
  then show ?thesis
  proof cases
    case 1
    then have "s mod N = 0"
      using smod_cases [OF N, of s] by (simp add: r_def)
    with 1 show ?thesis
      by (simp add: rotl_def rotate_left_def Let_def N_def r_def word_rotl_zero)
  next
    case 2
    have rN: "r < N"
      using smod_range [OF N, of s] by (simp add: r_def)
    have m: "s mod N = r"
      using smod_cases [OF N, of s] 2 by (simp add: r_def)
    have "(N - r) smod N = N - r"
      using 2 rN by (simp add: smod_small)
    moreover have "nat (N - r) = LENGTH('a) - nat r"
      using 2 rN by (simp add: N_def)
    ultimately have "rotl x s = Some (push_bit (nat r) x OR drop_bit (LENGTH('a) - nat r) x)"
      using 2 rN
      by (simp add: rotl_def Let_def shl_def shr_def N_def [symmetric] r_def [symmetric])
    also have "push_bit (nat r) x OR drop_bit (LENGTH('a) - nat r) x = word_rotl (nat r) x"
      using 2 rN by (intro shl_or_shr_is_rotation) (simp_all add: N_def)
    finally show ?thesis
      by (simp add: rotate_left_def m N_def [symmetric])
  next
    case 3
    have rN: "- N < r"
      using smod_range [OF N, of s] by (simp add: r_def)
    have m: "s mod N = N + r"
      using smod_cases [OF N, of s] 3 by (simp add: r_def)
    have "(N + r) smod N = N + r"
      using 3 rN by (simp add: smod_small)
    moreover have "nat (- r) = LENGTH('a) - nat (N + r)"
      using 3 rN by (simp add: N_def)
    ultimately have
      "rotl x s = Some (drop_bit (LENGTH('a) - nat (N + r)) x OR push_bit (nat (N + r)) x)"
      using 3 rN
      by (simp add: rotl_def Let_def shl_def shr_def N_def [symmetric] r_def [symmetric])
    also have "drop_bit (LENGTH('a) - nat (N + r)) x OR push_bit (nat (N + r)) x
                 = word_rotl (nat (N + r)) x"
      using 3 rN shl_or_shr_is_rotation [of "nat (N + r)" x] by (simp add: N_def or.commute)
    finally show ?thesis
      by (simp add: rotate_left_def m N_def [symmetric])
  qed
qed

lemma bit_rotate_left:
  fixes x :: "'a::len word"
  shows "bit (rotate_left x s) n =
           (n < LENGTH('a) \<and> bit x (nat ((int n - s) mod int LENGTH('a))))"
proof -
  define N where "N = int LENGTH('a)"
  define m where "m = nat (s mod N)"
  have N: "0 < N" by (simp add: N_def)
  have m: "int m = s mod N" and mN: "m < LENGTH('a)"
    using N pos_mod_bound [of N s] by (simp_all add: m_def N_def nat_less_iff)
  have "int ((n + (LENGTH('a) - m mod LENGTH('a))) mod LENGTH('a)) = (int n + N - int m) mod N"
    using mN by (simp add: zmod_int of_nat_diff N_def)
  also have "\<dots> = (N + (int n - s mod N)) mod N"
    by (simp add: m algebra_simps)
  also have "\<dots> = (int n - s mod N) mod N"
    by simp
  also have "\<dots> = (int n - s) mod N"
    by (simp add: mod_diff_right_eq)
  finally have "(n + (LENGTH('a) - m mod LENGTH('a))) mod LENGTH('a) = nat ((int n - s) mod N)"
    by linarith
  then show ?thesis
    by (simp add: rotate_left_def bit_word_rotl_iff m_def [symmetric] N_def [symmetric])
qed

text \<open>
  C4: \<open>rotl\<close> is defined for a rotation amount of any sign and is the circular
  rotation to the left, over the whole width \<open>N\<close> of the seed type, by the amount
  normalised into \<open>[0, N)\<close>: bit \<open>n\<close> of the result is bit \<open>(n - s) mod N\<close> of the
  argument. In particular a rotation by \<open>0\<close> or by \<open>N\<close> returns the argument, and a
  rotation by \<open>- s\<close> is the rotation by \<open>N - (s mod N)\<close>, whether \<open>mod\<close> is the
  mathematical remainder or the truncating one of the program.
\<close>

theorem rotl_circular:
  fixes x :: "'a::len word"
  shows "rotl x s = Some (rotate_left x s)
       \<and> rotate_left x s = rotate_left x (s mod int LENGTH('a))
       \<and> bit (rotate_left x s) n =
           (n < LENGTH('a) \<and> bit x (nat ((int n - s) mod int LENGTH('a))))
       \<and> rotl x 0 = Some x
       \<and> rotl x (int LENGTH('a)) = Some x
       \<and> rotl x (- s) = rotl x (int LENGTH('a) - s mod int LENGTH('a))
       \<and> rotl x (- s) = rotl x (int LENGTH('a) - s smod int LENGTH('a))"
proof -
  have a: "rotl x 0 = Some x"
    by (simp add: rotl_is_rotate_left rotate_left_def word_rotl_zero)
  have b: "rotl x (int LENGTH('a)) = Some x"
    by (simp add: rotl_is_rotate_left rotate_left_def word_rotl_zero)
  have "(- s) mod int LENGTH('a) = (int LENGTH('a) - s mod int LENGTH('a)) mod int LENGTH('a)"
    by (rule neg_as_complement) simp
  then have c: "rotl x (- s) = rotl x (int LENGTH('a) - s mod int LENGTH('a))"
    by (simp add: rotl_is_rotate_left rotate_left_def)
  have "(- s) mod int LENGTH('a) = (int LENGTH('a) - s smod int LENGTH('a)) mod int LENGTH('a)"
    by (rule neg_as_complement) (simp add: smod_mod_cong)
  then have d: "rotl x (- s) = rotl x (int LENGTH('a) - s smod int LENGTH('a))"
    by (simp add: rotl_is_rotate_left rotate_left_def)
  have e: "rotate_left x s = rotate_left x (s mod int LENGTH('a))"
    by (simp add: rotate_left_def)
  show ?thesis
    using a b c d e rotl_is_rotate_left [of x s] bit_rotate_left [of x s n] by blast
qed

lemma rotl_shift_amounts_in_range:
  "list_all (\<lambda>k. 0 \<le> k \<and> k < int LENGTH('a)) (rotl_shift_amounts TYPE('a::len) s)"
proof -
  define N where "N = int LENGTH('a)"
  have N: "0 < N" by (simp add: N_def)
  have r: "- N < s smod N \<and> s smod N < N"
    by (rule smod_range [OF N])
  have "0 < s smod N \<Longrightarrow> (N - s smod N) smod N = N - s smod N"
    using r by (simp add: smod_small)
  moreover have "s smod N < 0 \<Longrightarrow> (N + s smod N) smod N = N + s smod N"
    using r by (simp add: smod_small)
  ultimately show ?thesis
    using r by (auto simp add: rotl_shift_amounts_def Let_def N_def [symmetric])
qed

text \<open>
  C10: for every argument and every rotation amount, of any sign and size, each shift
  that \<open>rotl\<close> evaluates has an operand in \<open>[0, N)\<close>: \<open>rotl\<close> never reaches an
  undefined shift and always returns a value. The third part ties the listed operands
  to the shifts of \<open>rotl\<close>.
\<close>

theorem rotl_shifts_in_range:
  fixes x :: "'a::len word"
  shows "(\<exists>y. rotl x s = Some y)
       \<and> list_all (\<lambda>k. 0 \<le> k \<and> k < int LENGTH('a)) (rotl_shift_amounts TYPE('a) s)
       \<and> rotl x s =
           (case rotl_shift_amounts TYPE('a) s of
              [] \<Rightarrow> Some x
            | [j, k] \<Rightarrow>
                if 0 < s smod int LENGTH('a)
                then do { a \<leftarrow> shl x j; b \<leftarrow> shr x k; Some (a OR b) }
                else do { a \<leftarrow> shr x j; b \<leftarrow> shl x k; Some (a OR b) })"
proof -
  have "rotl x s =
           (case rotl_shift_amounts TYPE('a) s of
              [] \<Rightarrow> Some x
            | [j, k] \<Rightarrow>
                if 0 < s smod int LENGTH('a)
                then do { a \<leftarrow> shl x j; b \<leftarrow> shr x k; Some (a OR b) }
                else do { a \<leftarrow> shr x j; b \<leftarrow> shl x k; Some (a OR b) })"
    by (simp add: rotl_def rotl_shift_amounts_def Let_def)
  then show ?thesis
    using rotl_is_rotate_left [of x s] rotl_shift_amounts_in_range [where 'a = 'a, of s]
    by blast
qed

theorem rotl_shifts_in_range_witness:
  "(\<exists>y. rotl (0x80000001 :: 32 word) (- 2147483648) = Some y)
     \<and> rotl_shift_amounts TYPE(32) (- 2147483648) = []
     \<and> rotl_shift_amounts TYPE(32) (- 33) = [1, 31]
     \<and> rotl_shift_amounts TYPE(32) 2147483647 = [31, 1]
     \<and> rotl_shift_amounts TYPE(64) (- 2147483647) = [63, 1]
     \<and> rotl (0x80000001 :: 32 word) (- 33) = Some 0xC0000000"
  using rotl_shifts_in_range [of "0x80000001 :: 32 word" "- 2147483648"]
  by (simp add: rotl_def rotl_shift_amounts_def shl_def shr_def signed_modulo_int_def)

theorem rotl_circular_witness:
  "rotl (0x80000001 :: 32 word) 1 = Some 3
     \<and> rotl (0x80000001 :: 32 word) (- 1) = Some 0xC0000000
     \<and> rotl (0x80000001 :: 32 word) 31 = Some 0xC0000000
     \<and> rotl (0x80000001 :: 32 word) 32 = Some 0x80000001
     \<and> rotl (0x0123456789ABCDEF :: 64 word) (- 60) = Some 0x123456789ABCDEF0"
  using rotl_circular [of "0x80000001 :: 32 word" "1" 0]
  by (simp add: rotl_def shl_def shr_def signed_modulo_int_def)

section \<open>Formatting\<close>

lemma hex_digit_upper_mem:
  assumes "d < 16"
  shows "hex_digit_upper d \<in> set ''0123456789ABCDEF''"
proof -
  have "''0123456789ABCDEF'' ! d \<in> set ''0123456789ABCDEF''"
    using assms by (intro nth_mem) simp
  then show ?thesis
    by (simp only: hex_digit_upper_def)
qed

lemma setw_hex_upper:
  assumes "n < 256"
  shows "setw_fill 2 (CHR ''0'') (hex_upper n) = [hex_digit_upper (n div 16), hex_digit_upper (n mod 16)]"
proof (cases "n < 16")
  case True
  then show ?thesis
    by (simp add: hex_upper.simps [of n] setw_fill_def hex_digit_upper_def)
next
  case False
  moreover have "n div 16 < 16"
    using assms by simp
  ultimately show ?thesis
    by (simp add: hex_upper.simps [of n] hex_upper.simps [of "n div 16"] setw_fill_def)
qed

lemma render_byte: "setw_fill 2 (CHR ''0'') (hex_upper (unat (e :: uint8_t))) = hex2 e"
proof -
  have "unat e < 2 ^ LENGTH(8)"
    by (rule unsigned_less)
  then have "unat e < 256"
    by simp
  then show ?thesis
    by (simp add: setw_hex_upper hex2_def)
qed

lemma to_string_16:
  "to_string [b0, b1, b2, b3, b4, b5, b6, b7, b8, b9, b10, b11, b12, b13, b14, b15] =
     hex2 b0 @ hex2 b1 @ hex2 b2 @ hex2 b3 @ ''-'' @ hex2 b4 @ hex2 b5 @ ''-'' @
     hex2 b6 @ hex2 b7 @ ''-'' @ hex2 b8 @ hex2 b9 @ ''-'' @
     hex2 b10 @ hex2 b11 @ hex2 b12 @ hex2 b13 @ hex2 b14 @ hex2 b15"
  by (simp add: to_string_def render_byte)

lemma list_of_length_16:
  assumes "length (xs :: 'a list) = 16"
  obtains b0 b1 b2 b3 b4 b5 b6 b7 b8 b9 b10 b11 b12 b13 b14 b15
  where "xs = [b0, b1, b2, b3, b4, b5, b6, b7, b8, b9, b10, b11, b12, b13, b14, b15]"
  using assms by (auto simp add: eval_nat_numeral length_Suc_conv)

lemma to_string_16_length:
  assumes "length d = 16"
  shows "length (to_string d) = 36"
proof -
  obtain b0 b1 b2 b3 b4 b5 b6 b7 b8 b9 b10 b11 b12 b13 b14 b15
    where "d = [b0, b1, b2, b3, b4, b5, b6, b7, b8, b9, b10, b11, b12, b13, b14, b15]"
    using assms by (rule list_of_length_16)
  then show ?thesis
    by (simp add: to_string_16 hex2_def)
qed

lemma hex2_digits_mem:
  fixes e :: uint8_t
  shows "hex_digit_upper (unat e div 16) \<in> set ''0123456789ABCDEF''"
    and "hex_digit_upper (unat e mod 16) \<in> set ''0123456789ABCDEF''"
proof -
  have "unat e < 2 ^ LENGTH(8)"
    by (rule unsigned_less)
  then have "unat e div 16 < 16"
    by simp
  then show "hex_digit_upper (unat e div 16) \<in> set ''0123456789ABCDEF''"
    by (rule hex_digit_upper_mem)
  show "hex_digit_upper (unat e mod 16) \<in> set ''0123456789ABCDEF''"
    by (rule hex_digit_upper_mem) simp
qed

lemma shape_36:
  fixes H :: "char set"
  assumes s: "s = [a0, a1, a2, a3, a4, a5, a6, a7, CHR ''-'', a8, a9, a10, a11, CHR ''-'',
                   a12, a13, a14, a15, CHR ''-'', a16, a17, a18, a19, CHR ''-'',
                   a20, a21, a22, a23, a24, a25, a26, a27, a28, a29, a30, a31]"
    and H: "set [a0, a1, a2, a3, a4, a5, a6, a7, a8, a9, a10, a11, a12, a13, a14, a15, a16,
                 a17, a18, a19, a20, a21, a22, a23, a24, a25, a26, a27, a28, a29, a30, a31] \<subseteq> H"
    and hyphen: "CHR ''-'' \<notin> H"
  shows "length s = 36"
    and "\<forall>i<36. (s ! i = CHR ''-'') = (i \<in> {8, 13, 18, 23})"
    and "\<forall>i<36. i \<notin> {8, 13, 18, 23} \<longrightarrow> s ! i \<in> H"
proof -
  show "length s = 36"
    by (simp add: s)
  have ne: "c \<noteq> CHR ''-''" if "c \<in> H" for c
    using that hyphen by blast
  have mem: "a0 \<in> H" "a1 \<in> H" "a2 \<in> H" "a3 \<in> H" "a4 \<in> H" "a5 \<in> H" "a6 \<in> H" "a7 \<in> H"
    "a8 \<in> H" "a9 \<in> H" "a10 \<in> H" "a11 \<in> H" "a12 \<in> H" "a13 \<in> H" "a14 \<in> H" "a15 \<in> H"
    "a16 \<in> H" "a17 \<in> H" "a18 \<in> H" "a19 \<in> H" "a20 \<in> H" "a21 \<in> H" "a22 \<in> H" "a23 \<in> H"
    "a24 \<in> H" "a25 \<in> H" "a26 \<in> H" "a27 \<in> H" "a28 \<in> H" "a29 \<in> H" "a30 \<in> H" "a31 \<in> H"
    using H by simp_all
  show "\<forall>i<36. (s ! i = CHR ''-'') = (i \<in> {8, 13, 18, 23})"
    unfolding s by (simp add: eval_nat_numeral All_less_Suc mem [THEN ne])
  show "\<forall>i<36. i \<notin> {8, 13, 18, 23} \<longrightarrow> s ! i \<in> H"
    unfolding s by (simp add: eval_nat_numeral All_less_Suc mem)
qed

text \<open>
  C6: for every array of 16 bytes, \<open>to_string\<close> writes each byte as its two
  upper-case hexadecimal digits, high digit first and zero-padded, with a hyphen after
  the 4th, 6th, 8th and 10th byte and nowhere else: the string has length 36, its
  characters at the indices 8, 13, 18 and 23 (from 0) are hyphens and no other is, and
  every other character is one of \<open>0123456789ABCDEF\<close>.
\<close>

theorem to_string_format:
  assumes "length data = 16"
  shows "to_string data =
           concat (map hex2 (take 4 data)) @ ''-'' @
           concat (map hex2 (take 2 (drop 4 data))) @ ''-'' @
           concat (map hex2 (take 2 (drop 6 data))) @ ''-'' @
           concat (map hex2 (take 2 (drop 8 data))) @ ''-'' @
           concat (map hex2 (drop 10 data))
       \<and> length (to_string data) = 36
       \<and> (\<forall>i<36. (to_string data ! i = CHR ''-'') = (i \<in> {8, 13, 18, 23}))
       \<and> (\<forall>i<36. i \<notin> {8, 13, 18, 23} \<longrightarrow> to_string data ! i \<in> set ''0123456789ABCDEF'')"
proof -
  obtain b0 b1 b2 b3 b4 b5 b6 b7 b8 b9 b10 b11 b12 b13 b14 b15
    where data: "data = [b0, b1, b2, b3, b4, b5, b6, b7, b8, b9, b10, b11, b12, b13, b14, b15]"
    using assms by (rule list_of_length_16)
  define H where "H = set ''0123456789ABCDEF''"
  have hi: "hex_digit_upper (unat e div 16) \<in> H" and lo: "hex_digit_upper (unat e mod 16) \<in> H"
    for e :: uint8_t
    unfolding H_def by (rule hex2_digits_mem)+
  have hyphen: "CHR ''-'' \<notin> H"
    by (simp add: H_def)
  have str: "to_string data =
     [hex_digit_upper (unat b0 div 16), hex_digit_upper (unat b0 mod 16),
      hex_digit_upper (unat b1 div 16), hex_digit_upper (unat b1 mod 16),
      hex_digit_upper (unat b2 div 16), hex_digit_upper (unat b2 mod 16),
      hex_digit_upper (unat b3 div 16), hex_digit_upper (unat b3 mod 16), CHR ''-'',
      hex_digit_upper (unat b4 div 16), hex_digit_upper (unat b4 mod 16),
      hex_digit_upper (unat b5 div 16), hex_digit_upper (unat b5 mod 16), CHR ''-'',
      hex_digit_upper (unat b6 div 16), hex_digit_upper (unat b6 mod 16),
      hex_digit_upper (unat b7 div 16), hex_digit_upper (unat b7 mod 16), CHR ''-'',
      hex_digit_upper (unat b8 div 16), hex_digit_upper (unat b8 mod 16),
      hex_digit_upper (unat b9 div 16), hex_digit_upper (unat b9 mod 16), CHR ''-'',
      hex_digit_upper (unat b10 div 16), hex_digit_upper (unat b10 mod 16),
      hex_digit_upper (unat b11 div 16), hex_digit_upper (unat b11 mod 16),
      hex_digit_upper (unat b12 div 16), hex_digit_upper (unat b12 mod 16),
      hex_digit_upper (unat b13 div 16), hex_digit_upper (unat b13 mod 16),
      hex_digit_upper (unat b14 div 16), hex_digit_upper (unat b14 mod 16),
      hex_digit_upper (unat b15 div 16), hex_digit_upper (unat b15 mod 16)]"
    by (simp add: data to_string_16 hex2_def)
  have shape: "length (to_string data) = 36"
    "\<forall>i<36. (to_string data ! i = CHR ''-'') = (i \<in> {8, 13, 18, 23})"
    "\<forall>i<36. i \<notin> {8, 13, 18, 23} \<longrightarrow> to_string data ! i \<in> H"
    by (rule shape_36 [OF str _ hyphen], simp add: hi lo)+
  have groups: "to_string data =
           concat (map hex2 (take 4 data)) @ ''-'' @
           concat (map hex2 (take 2 (drop 4 data))) @ ''-'' @
           concat (map hex2 (take 2 (drop 6 data))) @ ''-'' @
           concat (map hex2 (take 2 (drop 8 data))) @ ''-'' @
           concat (map hex2 (drop 10 data))"
    by (simp add: data to_string_16)
  show ?thesis
    using groups shape unfolding H_def by blast
qed

theorem to_string_format_witness:
  "length [0x00, 0x01, 0x02, 0x03, 0x04, 0x05, 0x06, 0x07, 0x08, 0x09, 0x0A, 0x0B, 0x0C, 0x0D,
           0x0E, 0xFF :: uint8_t] = 16
   \<and> to_string [0x00, 0x01, 0x02, 0x03, 0x04, 0x05, 0x06, 0x07, 0x08, 0x09, 0x0A, 0x0B, 0x0C,
                 0x0D, 0x0E, 0xFF] = ''00010203-0405-0607-0809-0A0B0C0D0EFF''
   \<and> length (to_string [0x00, 0x01, 0x02, 0x03, 0x04, 0x05, 0x06, 0x07, 0x08, 0x09, 0x0A,
                         0x0B, 0x0C, 0x0D, 0x0E, 0xFF]) = 36"
  using to_string_format [of "[0x00, 0x01, 0x02, 0x03, 0x04, 0x05, 0x06, 0x07, 0x08, 0x09, 0x0A,
                               0x0B, 0x0C, 0x0D, 0x0E, 0xFF]"]
  by (simp add: hex2_def hex_digit_upper_def)

section \<open>Seed derivation\<close>

lemma seed_type_accepted_iff: "seed_type_accepted TYPE('a::len) = (32 \<le> LENGTH('a))"
  by (auto simp add: seed_type_accepted_def sizeof_def)

lemma seed_type_of_char_high:
  "seed_type_of_char True 0xFF = (0xFFFFFFFF :: 32 word)"
  "seed_type_of_char False 0xFF = (0xFF :: 32 word)"
  by (simp_all add: seed_type_of_char_def)

lemma shl_8:
  fixes acc :: "'a::len word"
  assumes "seed_type_accepted TYPE('a)"
  shows "shl acc 8 = Some (push_bit 8 acc)"
  using assms by (simp add: seed_type_accepted_iff shl_def)

lemma accumulate_foldl:
  assumes "\<And>acc b. binop acc b = Some (f acc b)"
  shows "accumulate bs init binop = Some (foldl f init bs)"
  by (induction bs arbitrary: init) (simp_all add: assms)

lemma mkseed_empty:
  "mkseed L rd [] ofs rot = Some (rotate_left (ucast (shd rd)) rot, stl rd)"
  by (simp add: mkseed_def rotl_is_rotate_left)

lemma mkseed_nonempty:
  fixes L :: "('a::len word, 'e) stdlib"
  assumes "seed \<noteq> []" and "seed_type_accepted TYPE('a)"
  shows "mkseed L rd seed ofs rot =
           Some (expand_fold (seed_type_of_char (char_is_signed L)) seed ofs rot, rd)"
proof -
  have "accumulate seed ofs (\<lambda>acc b. do {
           hi \<leftarrow> shl acc 8;
           rotl (acc XOR (hi OR seed_type_of_char (char_is_signed L) b)) rot })
        = Some (foldl (\<lambda>acc b. rotate_left
                   (acc XOR (push_bit 8 acc OR seed_type_of_char (char_is_signed L) b)) rot) ofs seed)"
    by (rule accumulate_foldl) (simp add: shl_8 [OF assms(2)] rotl_is_rotate_left)
  with assms(1) show ?thesis
    by (simp add: mkseed_def expand_fold_def)
qed

lemma scast_low_byte:
  fixes b :: uint8_t
  assumes "b < 0x80"
  shows "(scast b :: 'a::len word) = ucast b"
proof -
  have "unat b < 128"
    using assms by (simp add: word_less_nat_alt)
  then have "\<not> bit (unat b) 7"
    by (simp add: bit_iff_odd)
  then have top: "\<not> bit b 7"
    by (simp add: bit_unsigned_iff)
  show ?thesis
  proof (rule bit_word_eqI)
    fix n
    assume "n < LENGTH('a)"
    then show "bit (scast b :: 'a word) n = bit (ucast b :: 'a word) n"
      using top bit_imp_le_length [of b n]
      by (auto simp add: bit_word_scast_iff bit_word_ucast_iff)
  qed
qed

lemma seed_type_of_char_low:
  fixes b :: uint8_t
  assumes "b < 0x80"
  shows "(seed_type_of_char sgnd b :: 'a::len word) = ucast b"
  using scast_low_byte [OF assms, where 'a = 'a] by (simp add: seed_type_of_char_def)

lemma expand_fold_cong:
  assumes "\<And>b. b \<in> set seed \<Longrightarrow> f b = g b"
  shows "expand_fold f seed ofs rot = expand_fold g seed ofs rot"
  unfolding expand_fold_def by (rule foldl_cong) (simp_all add: assms)

lemma seed_type_of_char_fun:
  "(seed_type_of_char sgnd :: uint8_t \<Rightarrow> 'a::len word) = (if sgnd then scast else ucast)"
  by (rule ext) (simp add: seed_type_of_char_def)

text \<open>
  C3, amended: for every non-empty seed, every offset and every rotation amount,
  \<open>mkseed\<close> returns the left-to-right fold over the seed that starts at the offset and
  replaces the accumulator, for each element \<open>b\<close>, by
  \<open>rotate_left (acc XOR ((acc << 8) OR ScalarSeed b)) rotation\<close>, and returns the entropy
  source as it was. Here \<open>ScalarSeed b\<close> is the conversion of the \<open>char\<close> \<open>b\<close> to the
  seed type: the sign-extended byte where \<open>char\<close> is signed, the zero-extended byte
  where it is not. For a seed whose bytes are all below \<open>0x80\<close> both are the value of
  the byte, and the result is the fold over the byte values on every platform. The
  result is one value for each seed, offset and rotation amount in one build, that is
  for one width of the seed type and one signedness of \<open>char\<close>.
\<close>

theorem mkseed_is_fold:
  fixes L :: "('a::len word, 'e) stdlib"
  assumes "seed \<noteq> []" and "seed_type_accepted TYPE('a)"
  shows "(char_is_signed L \<longrightarrow>
            mkseed L rd seed ofs rot = Some (expand_fold scast seed ofs rot, rd))
       \<and> (\<not> char_is_signed L \<longrightarrow>
            mkseed L rd seed ofs rot = Some (expand_fold ucast seed ofs rot, rd))
       \<and> ((\<forall>b \<in> set seed. b < 0x80) \<longrightarrow>
            mkseed L rd seed ofs rot = Some (expand_fold ucast seed ofs rot, rd))"
proof -
  have m: "mkseed L rd seed ofs rot =
             Some (expand_fold (seed_type_of_char (char_is_signed L)) seed ofs rot, rd)"
    by (rule mkseed_nonempty [OF assms])
  have low: "expand_fold (seed_type_of_char (char_is_signed L)) seed ofs rot =
               (expand_fold ucast seed ofs rot :: 'a word)"
    if "\<forall>b \<in> set seed. b < 0x80"
    using that by (intro expand_fold_cong) (simp add: seed_type_of_char_low)
  show ?thesis
    using m low by (simp add: seed_type_of_char_fun)
qed

lemma mkseed_total:
  fixes L :: "('a::len word, 'e) stdlib"
  assumes "seed_type_accepted TYPE('a)"
  shows "\<exists>v rd'. mkseed L rd seed ofs rot = Some (v, rd')"
  using mkseed_empty [of L rd ofs rot] mkseed_nonempty [OF _ assms, of seed L rd ofs rot]
  by (cases "seed = []") simp_all

lemma replicate_4: "replicate 4 x = [x, x, x, x]"
  by (simp add: eval_nat_numeral)

lemma replicate_16: "replicate 16 x = [x, x, x, x, x, x, x, x, x, x, x, x, x, x, x, x]"
  by (simp add: eval_nat_numeral)

lemma seed_engines_eq:
  assumes "mkseed L rd seed SEED_OFFSET 0 = Some (s0, rd1)"
    and "mkseed L rd1 seed (mt_output L (mt19937 L s0) 0) 7 = Some (s1, rd2)"
    and "mkseed L rd2 seed (mt_output L (mt19937 L s1) 0) 11 = Some (s2, rd3)"
    and "mkseed L rd3 seed (mt_output L (mt19937 L s2) 0) 13 = Some (s3, rd4)"
  shows "seed_engines L rd seed =
           Some ([mt_discard L 1 (mt19937 L s0), mt_discard L 1 (mt19937 L s1),
                  mt_discard L 1 (mt19937 L s2), mt19937 L s3], rd4)"
  using assms
  by (simp add: seed_engines_def replicate_4 mt_assign_def mt_at_def mt_output_def
      case_prod_beta)


lemma seed_engines_length:
  assumes "seed_engines L rd seed = Some (mt, rd')"
  shows "length mt = 4"
  using assms
  by (auto simp add: seed_engines_def replicate_4 mt_assign_def mt_at_def case_prod_beta
      split: bind_splits if_splits)

lemma list_of_length_4:
  assumes "length (xs :: 'a list) = 4"
  obtains g0 g1 g2 g3 where "xs = [g0, g1, g2, g3]"
  using assms by (auto simp add: eval_nat_numeral length_Suc_conv)

lemma fill_four_engines:
  "fill L (replicate 16 0) [g0, g1, g2, g3] 0 =
     Some (map (\<lambda>(k, n). ucast (mt_output L ([g0, g1, g2, g3] ! k) n))
             [(1, 0), (2, 0), (3, 0), (0, 0), (1, 1), (2, 1), (3, 1), (0, 1),
              (1, 2), (2, 2), (3, 2), (0, 2), (1, 3), (2, 3), (3, 3), (0, 3)],
           map (mt_discard L 4) [g0, g1, g2, g3], 16)"
  by (simp add: replicate_16 mt_at_def mt_output_def case_prod_beta eval_nat_numeral)

lemma seed_engines_total:
  fixes L :: "('a::len word, 'e) stdlib"
  assumes "seed_type_accepted TYPE('a)"
  shows "\<exists>mt rd'. seed_engines L rd seed = Some (mt, rd')"
proof -
  obtain s0 rd1 where 0: "mkseed L rd seed SEED_OFFSET 0 = Some (s0, rd1)"
    using mkseed_total [OF assms] by blast
  obtain s1 rd2 where 1: "mkseed L rd1 seed (mt_output L (mt19937 L s0) 0) 7 = Some (s1, rd2)"
    using mkseed_total [OF assms] by blast
  obtain s2 rd3 where 2: "mkseed L rd2 seed (mt_output L (mt19937 L s1) 0) 11 = Some (s2, rd3)"
    using mkseed_total [OF assms] by blast
  obtain s3 rd4 where 3: "mkseed L rd3 seed (mt_output L (mt19937 L s2) 0) 13 = Some (s3, rd4)"
    using mkseed_total [OF assms] by blast
  show ?thesis
    using seed_engines_eq [OF 0 1 2 3] by blast
qed

lemma fill_after_seed_engines:
  fixes L :: "('a::len word, 'e) stdlib"
  assumes "seed_engines L rd seed = Some (mt, rd')"
  shows "fill L (replicate 16 0) mt 0 =
           Some (map (\<lambda>(k, n). ucast (mt_output L (mt ! k) n))
                   [(1, 0), (2, 0), (3, 0), (0, 0), (1, 1), (2, 1), (3, 1), (0, 1),
                    (1, 2), (2, 2), (3, 2), (0, 2), (1, 3), (2, 3), (3, 3), (0, 3)],
                 map (mt_discard L 4) mt, 16)"
proof -
  have "length mt = 4"
    using assms by (rule seed_engines_length)
  then obtain g0 g1 g2 g3 where mt: "mt = [g0, g1, g2, g3]"
    by (rule list_of_length_4)
  show ?thesis
    unfolding mt by (rule fill_four_engines)
qed

lemma generate_guid_bytes:
  fixes L :: "('a::len word, 'e) stdlib"
  assumes "seed_engines L rd seed = Some (mt, rd')"
  shows "generate_guid L rd seed =
           Some (map (\<lambda>(k, n). ucast (mt_output L (mt ! k) n))
                   [(1, 0), (2, 0), (3, 0), (0, 0), (1, 1), (2, 1), (3, 1), (0, 1),
                    (1, 2), (2, 2), (3, 2), (0, 2), (1, 3), (2, 3), (3, 3), (0, 3)], rd')"
  using assms fill_after_seed_engines [OF assms] by (simp add: generate_guid_def)

text \<open>
  C1: once the four engines are constructed, the loop fills the 16 bytes from the
  engines 1, 2, 3, 0, 1, 2, 3, 0, 1, 2, 3, 0, 1, 2, 3, 0 in this order. Each byte is the
  low 8 bits of the next value of its engine, and each byte costs its engine one value:
  the pair \<open>(k, n)\<close> is the engine and the number of values the loop has taken from it
  before, and after the loop every engine has delivered four values.
\<close>

theorem fill_round_robin:
  fixes L :: "('a::len word, 'e) stdlib"
  assumes "seed_engines L rd seed = Some (mt, rd')"
  shows "fill L (replicate 16 0) mt 0 =
           Some (map (\<lambda>(k, n). ucast (mt_output L (mt ! k) n))
                   [(1, 0), (2, 0), (3, 0), (0, 0), (1, 1), (2, 1), (3, 1), (0, 1),
                    (1, 2), (2, 2), (3, 2), (0, 2), (1, 3), (2, 3), (3, 3), (0, 3)],
                 map (mt_discard L 4) mt, 16)
       \<and> generate_guid L rd seed =
           Some (map (\<lambda>(k, n). ucast (mt_output L (mt ! k) n))
                   [(1, 0), (2, 0), (3, 0), (0, 0), (1, 1), (2, 1), (3, 1), (0, 1),
                    (1, 2), (2, 2), (3, 2), (0, 2), (1, 3), (2, 3), (3, 3), (0, 3)], rd')"
  using fill_after_seed_engines [OF assms] generate_guid_bytes [OF assms] by blast

text \<open>
  C7: on the empty seed \<open>mkseed\<close> takes one value from the entropy source and
  returns its rotation by the rotation amount: the result does not depend on the offset,
  and the source is returned advanced by that one value. On the seed of the single byte
  0 it returns the fold step applied to the offset: the result does not depend on the
  entropy source, which is returned untouched.
\<close>

theorem mkseed_branches:
  fixes L :: "('a::len word, 'e) stdlib"
  assumes "seed_type_accepted TYPE('a)"
  shows "mkseed L rd [] ofs rot = Some (rotate_left (ucast (shd rd)) rot, stl rd)
       \<and> mkseed L rd [] ofs rot = mkseed L rd [] ofs' rot
       \<and> mkseed L rd [0] ofs rot = Some (rotate_left (ofs XOR push_bit 8 ofs) rot, rd)
       \<and> map_option fst (mkseed L rd [0] ofs rot) = map_option fst (mkseed L rd'' [0] ofs rot)"
proof -
  have "mkseed L r [0] ofs rot = Some (rotate_left (ofs XOR push_bit 8 ofs) rot, r)" for r
    using mkseed_nonempty [OF _ assms, of "[0]" L r ofs rot]
    by (simp add: expand_fold_def seed_type_of_char_def)
  then show ?thesis
    by (simp add: mkseed_empty)
qed

lemma seed_engines_nonempty:
  fixes L :: "('a::len word, 'e) stdlib"
  assumes "seed \<noteq> []" and "seed_type_accepted TYPE('a)"
  shows "\<exists>mt. \<forall>rd. seed_engines L rd seed = Some (mt, rd)"
proof -
  define scalar :: "uint8_t \<Rightarrow> 'a word" where "scalar = seed_type_of_char (char_is_signed L)"
  define s0 where "s0 = expand_fold scalar seed SEED_OFFSET 0"
  define s1 where "s1 = expand_fold scalar seed (mt_output L (mt19937 L s0) 0) 7"
  define s2 where "s2 = expand_fold scalar seed (mt_output L (mt19937 L s1) 0) 11"
  define s3 where "s3 = expand_fold scalar seed (mt_output L (mt19937 L s2) 0) 13"
  have "seed_engines L rd seed =
          Some ([mt_discard L 1 (mt19937 L s0), mt_discard L 1 (mt19937 L s1),
                 mt_discard L 1 (mt19937 L s2), mt19937 L s3], rd)" for rd
    by (rule seed_engines_eq)
      (simp_all add: mkseed_nonempty [OF assms] s0_def s1_def s2_def s3_def scalar_def)
  then show ?thesis
    by blast
qed

text \<open>
  C5: for every non-empty seed, \<open>generate_guid\<close> returns the same 16 bytes whatever
  the entropy source holds, and returns the source untouched: two calls on the seed give
  the same bytes.
\<close>

theorem generate_guid_deterministic:
  fixes L :: "('a::len word, 'e) stdlib"
  assumes "seed \<noteq> []" and "seed_type_accepted TYPE('a)"
  shows "\<exists>data. length data = 16 \<and> (\<forall>rd. generate_guid L rd seed = Some (data, rd))"
proof -
  obtain mt where mt: "seed_engines L rd seed = Some (mt, rd)" for rd
    using seed_engines_nonempty [OF assms, of L] by blast
  have "generate_guid L rd seed =
           Some (map (\<lambda>(k, n). ucast (mt_output L (mt ! k) n))
                   [(1, 0), (2, 0), (3, 0), (0, 0), (1, 1), (2, 1), (3, 1), (0, 1),
                    (1, 2), (2, 2), (3, 2), (0, 2), (1, 3), (2, 3), (3, 3), (0, 3)], rd)" for rd
    by (rule generate_guid_bytes [OF mt])
  then show ?thesis
    by (intro exI [of _ "map (\<lambda>(k, n). ucast (mt_output L (mt ! k) n))
                   [(1, 0), (2, 0), (3, 0), (0, 0), (1, 1), (2, 1), (3, 1), (0, 1),
                    (1, 2), (2, 2), (3, 2), (0, 2), (1, 3), (2, 3), (3, 3), (0, 3)]"]) simp
qed

text \<open>
  C8: in a program that passed the static assertion, \<open>generate_guid\<close> reaches no
  undefined operation: for every seed, empty or not, it returns 16 bytes. \<open>to_string\<close>
  has no operation that can fail, and returns a string of 36 characters for every array
  of 16 bytes.
\<close>

theorem generate_and_format_total:
  fixes L :: "('a::len word, 'e) stdlib"
  assumes "seed_type_accepted TYPE('a)"
  shows "(\<exists>data rd'. generate_guid L rd seed = Some (data, rd') \<and> length data = 16
            \<and> length (to_string data) = 36)
       \<and> (\<forall>d. length d = 16 \<longrightarrow> length (to_string d) = 36)"
proof -
  obtain mt rd' where mt: "seed_engines L rd seed = Some (mt, rd')"
    using seed_engines_total [OF assms, of L rd seed] by blast
  have fmt: "length (to_string d) = 36" if "length d = 16" for d
    using to_string_16_length [OF that] .
  have "\<exists>data. generate_guid L rd seed = Some (data, rd') \<and> length data = 16"
    using generate_guid_bytes [OF mt] by simp
  then show ?thesis
    using fmt by blast
qed

text \<open>
  C9: the width of the seed type is checked when \<open>generate_guid\<close> is instantiated,
  before any seed exists: with a seed type of less than 32 bits there is no function,
  only the failed assertion, and wherever the function exists the seed type has at least
  32 bits.
\<close>

theorem seed_width_static_assert:
  "(instantiate_generate_guid TYPE('a::len) ::
      build_error + (('a word, 'e) stdlib \<Rightarrow> random_device \<Rightarrow> uint8_t list
                       \<Rightarrow> (guid_data_t \<times> random_device) option)) =
     (if 32 \<le> LENGTH('a) then Inr generate_guid
      else Inl (Static_Assert_Failed ''Seeds need to be at least 32bit.''))
   \<and> seed_type_accepted TYPE('a) = (32 \<le> LENGTH('a))"
proof -
  have "(sizeof TYPE(32) \<le> sizeof TYPE('a)) = (32 \<le> LENGTH('a))"
    by (auto simp add: sizeof_def)
  then show ?thesis
    by (simp add: instantiate_generate_guid_def seed_type_accepted_def)
qed

section \<open>The theorems at concrete inputs\<close>

lemmas run = mkseed_def rotl_def shl_def shr_def signed_modulo_int_def
  seed_type_of_char_def SEED_OFFSET_def lcg_def seed_engines_def mt_assign_def mt_at_def
  replicate_4 replicate_16 default_seed_def generate_guid_def

lemma accepted_32: "seed_type_accepted TYPE(32)"
  by (simp add: seed_type_accepted_def sizeof_def)

lemma accepted_64: "seed_type_accepted TYPE(64)"
  by (simp add: seed_type_accepted_def sizeof_def)

lemma test_engines:
  "seed_engines (lcg :: (32 word, 32 word) stdlib) (sconst 0) [0x74, 0x65, 0x73, 0x74] =
     Some ([0x3DE9D8C2, 0xB922C283, 0x1749E967, 0x1C29AD27], sconst 0)"
  by (simp add: run)

lemma test_guid:
  "generate_guid (lcg :: (32 word, 32 word) stdlib) (sconst 0) [0x74, 0x65, 0x73, 0x74] =
     Some ([0x06, 0x9A, 0x5A, 0x39, 0xAD, 0x31, 0xF1, 0x44,
            0x28, 0xDC, 0x9C, 0xD3, 0x67, 0x8B, 0x4B, 0x16], sconst 0)"
  by (simp add: run)

theorem fill_round_robin_witness:
  "seed_engines (lcg :: (32 word, 32 word) stdlib) (sconst 0) [0x74, 0x65, 0x73, 0x74] =
     Some ([0x3DE9D8C2, 0xB922C283, 0x1749E967, 0x1C29AD27], sconst 0)
   \<and> fill (lcg :: (32 word, 32 word) stdlib) (replicate 16 0)
       [0x3DE9D8C2, 0xB922C283, 0x1749E967, 0x1C29AD27] 0 =
     Some ([0x06, 0x9A, 0x5A, 0x39, 0xAD, 0x31, 0xF1, 0x44,
            0x28, 0xDC, 0x9C, 0xD3, 0x67, 0x8B, 0x4B, 0x16],
           [0x04B62716, 0x7018B467, 0x7E21778B, 0x7041974B], 16)
   \<and> generate_guid (lcg :: (32 word, 32 word) stdlib) (sconst 0) [0x74, 0x65, 0x73, 0x74] =
     Some ([0x06, 0x9A, 0x5A, 0x39, 0xAD, 0x31, 0xF1, 0x44,
            0x28, 0xDC, 0x9C, 0xD3, 0x67, 0x8B, 0x4B, 0x16], sconst 0)"
proof -
  have loop: "fill (lcg :: (32 word, 32 word) stdlib) (replicate 16 0)
       [0x3DE9D8C2, 0xB922C283, 0x1749E967, 0x1C29AD27] 0 =
     Some ([0x06, 0x9A, 0x5A, 0x39, 0xAD, 0x31, 0xF1, 0x44,
            0x28, 0xDC, 0x9C, 0xD3, 0x67, 0x8B, 0x4B, 0x16],
           [0x04B62716, 0x7018B467, 0x7E21778B, 0x7041974B], 16)"
    by (simp add: run)
  show ?thesis
    using test_engines loop test_guid fill_round_robin [OF test_engines]
    by blast
qed


theorem mkseed_is_fold_witness:
  "[0x74, 0x65, 0x73, 0x74 :: uint8_t] \<noteq> [] \<and> [0xFF :: uint8_t] \<noteq> []
   \<and> seed_type_accepted TYPE(32) \<and> seed_type_accepted TYPE(64)
   \<and> mkseed (lcg :: (32 word, 32 word) stdlib) (sconst 0) [0x74, 0x65, 0x73, 0x74] 0x271D8A39 0 =
       Some (expand_fold ucast [0x74, 0x65, 0x73, 0x74 :: uint8_t] 0x271D8A39 0, sconst 0)
   \<and> mkseed (lcg :: (32 word, 32 word) stdlib) (sconst 0) [0x74, 0x65, 0x73, 0x74] 0x271D8A39 0 =
       Some (0x530C8D2F, sconst 0)
   \<and> mkseed (lcg :: (32 word, 32 word) stdlib) (sconst 0) [0x74, 0x65, 0x73, 0x74] 0x271D8A39 7 =
       Some (0x23E612F5, sconst 0)
   \<and> mkseed (lcg :: (64 word, 64 word) stdlib) (sconst 0) [0x74, 0x65, 0x73, 0x74] 0x271D8A39 0 =
       Some (0x271D8A39530C8D2F, sconst 0)
   \<and> mkseed (lcg :: (32 word, 32 word) stdlib) (sconst 0) [0xFF] 0 0 =
       Some (expand_fold scast [0xFF :: uint8_t] 0 0, sconst 0)
   \<and> mkseed (lcg :: (32 word, 32 word) stdlib) (sconst 0) [0xFF] 0 0 =
       Some (0xFFFFFFFF, sconst 0)
   \<and> mkseed ((lcg :: (32 word, 32 word) stdlib)\<lparr>char_is_signed := False\<rparr>) (sconst 0)
         [0xFF] 0 0 =
       Some (expand_fold ucast [0xFF :: uint8_t] 0 0, sconst 0)
   \<and> mkseed ((lcg :: (32 word, 32 word) stdlib)\<lparr>char_is_signed := False\<rparr>) (sconst 0)
         [0xFF] 0 0 =
       Some (0xFF, sconst 0)"
proof -
  have ne: "[0x74, 0x65, 0x73, 0x74 :: uint8_t] \<noteq> []" and ne': "[0xFF :: uint8_t] \<noteq> []"
    by simp_all
  have vals:
    "mkseed (lcg :: (32 word, 32 word) stdlib) (sconst 0) [0x74, 0x65, 0x73, 0x74] 0x271D8A39 0 =
       Some (0x530C8D2F, sconst 0)"
    "mkseed (lcg :: (32 word, 32 word) stdlib) (sconst 0) [0x74, 0x65, 0x73, 0x74] 0x271D8A39 7 =
       Some (0x23E612F5, sconst 0)"
    "mkseed (lcg :: (64 word, 64 word) stdlib) (sconst 0) [0x74, 0x65, 0x73, 0x74] 0x271D8A39 0 =
       Some (0x271D8A39530C8D2F, sconst 0)"
    "mkseed (lcg :: (32 word, 32 word) stdlib) (sconst 0) [0xFF] 0 0 =
       Some (0xFFFFFFFF, sconst 0)"
    "mkseed ((lcg :: (32 word, 32 word) stdlib)\<lparr>char_is_signed := False\<rparr>) (sconst 0)
         [0xFF] 0 0 =
       Some (0xFF, sconst 0)"
    by (simp_all add: run)
  have low: "mkseed (lcg :: (32 word, 32 word) stdlib) (sconst 0) [0x74, 0x65, 0x73, 0x74]
               0x271D8A39 0 =
             Some (expand_fold ucast [0x74, 0x65, 0x73, 0x74 :: uint8_t] 0x271D8A39 0, sconst 0)"
    using mkseed_is_fold [OF ne accepted_32, of lcg "sconst 0" "0x271D8A39" 0] by simp
  have sgn: "mkseed (lcg :: (32 word, 32 word) stdlib) (sconst 0) [0xFF] 0 0 =
             Some (expand_fold scast [0xFF :: uint8_t] 0 0, sconst 0)"
    using mkseed_is_fold [OF ne' accepted_32, of lcg "sconst 0" 0 0] by (simp add: lcg_def)
  have uns: "mkseed ((lcg :: (32 word, 32 word) stdlib)\<lparr>char_is_signed := False\<rparr>) (sconst 0)
               [0xFF] 0 0 =
             Some (expand_fold ucast [0xFF :: uint8_t] 0 0, sconst 0)"
    using mkseed_is_fold [OF ne' accepted_32, of "lcg\<lparr>char_is_signed := False\<rparr>" "sconst 0" 0 0]
    by simp
  show ?thesis
    using ne ne' accepted_32 accepted_64 vals low sgn uns by blast
qed

text \<open>
  C3 as it is stated, with \<open>ScalarSeed b\<close> the value of the byte \<open>b\<close>, fails where
  \<open>char\<close> is signed and a byte of the seed is \<open>0x80\<close> or more: on the seed of the
  single byte \<open>0xFF\<close> with offset and rotation amount 0 the program returns
  \<open>0xFFFFFFFF\<close>, the fold over the byte values \<open>0xFF\<close>; at 64 bits and with the
  compiled offset it returns \<open>0xFFFFFFFFD8E275C6\<close>, the fold \<open>0x273A97B3C6\<close>.
\<close>

theorem mkseed_byte_fold_counterexample:
  "mkseed (lcg :: (32 word, 32 word) stdlib) (sconst 0) [0xFF] 0 0 = Some (0xFFFFFFFF, sconst 0)
   \<and> expand_fold ucast [0xFF :: uint8_t] (0 :: 32 word) 0 = 0xFF
   \<and> mkseed (lcg :: (32 word, 32 word) stdlib) (sconst 0) [0xFF] 0 0 \<noteq>
       Some (expand_fold ucast [0xFF :: uint8_t] 0 0, sconst 0)
   \<and> mkseed (lcg :: (64 word, 64 word) stdlib) (sconst 0) [0xFF] SEED_OFFSET 0 =
       Some (0xFFFFFFFFD8E275C6, sconst 0)
   \<and> expand_fold ucast [0xFF :: uint8_t] (SEED_OFFSET :: 64 word) 0 = 0x273A97B3C6
   \<and> mkseed (lcg :: (64 word, 64 word) stdlib) (sconst 0) [0xFF] SEED_OFFSET 0 \<noteq>
       Some (expand_fold ucast [0xFF :: uint8_t] SEED_OFFSET 0, sconst 0)"
proof -
  have code: "mkseed (lcg :: (32 word, 32 word) stdlib) (sconst 0) [0xFF] 0 0 =
                Some (0xFFFFFFFF, sconst 0)"
    "mkseed (lcg :: (64 word, 64 word) stdlib) (sconst 0) [0xFF] SEED_OFFSET 0 =
       Some (0xFFFFFFFFD8E275C6, sconst 0)"
    by (simp_all add: run)
  have claim: "expand_fold ucast [0xFF :: uint8_t] (0 :: 32 word) 0 = 0xFF"
    "expand_fold ucast [0xFF :: uint8_t] (SEED_OFFSET :: 64 word) 0 = 0x273A97B3C6"
    by (simp_all add: expand_fold_def rotate_left_def word_rotl_zero SEED_OFFSET_def)
  show ?thesis
    unfolding code claim by simp
qed

theorem generate_guid_deterministic_witness:
  "[0x74, 0x65, 0x73, 0x74 :: uint8_t] \<noteq> [] \<and> seed_type_accepted TYPE(32)
   \<and> generate_guid (lcg :: (32 word, 32 word) stdlib) (sconst 0) [0x74, 0x65, 0x73, 0x74] =
       Some ([0x06, 0x9A, 0x5A, 0x39, 0xAD, 0x31, 0xF1, 0x44,
              0x28, 0xDC, 0x9C, 0xD3, 0x67, 0x8B, 0x4B, 0x16], sconst 0)
   \<and> generate_guid (lcg :: (32 word, 32 word) stdlib) (siterate (\<lambda>x. x + 1) 5)
         [0x74, 0x65, 0x73, 0x74] =
       Some ([0x06, 0x9A, 0x5A, 0x39, 0xAD, 0x31, 0xF1, 0x44,
              0x28, 0xDC, 0x9C, 0xD3, 0x67, 0x8B, 0x4B, 0x16], siterate (\<lambda>x. x + 1) 5)"
proof -
  have ne: "[0x74, 0x65, 0x73, 0x74 :: uint8_t] \<noteq> []"
    by simp
  obtain data where data:
    "\<forall>rd. generate_guid (lcg :: (32 word, 32 word) stdlib) rd [0x74, 0x65, 0x73, 0x74] =
       Some (data, rd)"
    using generate_guid_deterministic [OF ne accepted_32, of lcg] by blast
  from data test_guid
  have "data = [0x06, 0x9A, 0x5A, 0x39, 0xAD, 0x31, 0xF1, 0x44,
                0x28, 0xDC, 0x9C, 0xD3, 0x67, 0x8B, 0x4B, 0x16]"
    by simp
  with data ne accepted_32 show ?thesis
    by simp
qed

theorem mkseed_branches_witness:
  "seed_type_accepted TYPE(32)
   \<and> mkseed (lcg :: (32 word, 32 word) stdlib) (siterate (\<lambda>x. x + 1) 5) [] 0x271D8A39 7 =
       Some (0x280, siterate (\<lambda>x. x + 1) 6)
   \<and> mkseed (lcg :: (32 word, 32 word) stdlib) (siterate (\<lambda>x. x + 1) 5) [0] 0x271D8A39 7 =
       Some (0x4BD99C9D, siterate (\<lambda>x. x + 1) 5)"
proof -
  have vals:
    "mkseed (lcg :: (32 word, 32 word) stdlib) (siterate (\<lambda>x. x + 1) 5) [] 0x271D8A39 7 =
       Some (0x280, siterate (\<lambda>x. x + 1) 6)"
    "mkseed (lcg :: (32 word, 32 word) stdlib) (siterate (\<lambda>x. x + 1) 5) [0] 0x271D8A39 7 =
       Some (0x4BD99C9D, siterate (\<lambda>x. x + 1) 5)"
    by (simp_all add: run)
  show ?thesis
    using accepted_32 vals
      mkseed_branches [OF accepted_32, of lcg "siterate (\<lambda>x. x + 1) 5" "0x271D8A39" 7]
    by blast
qed

theorem generate_and_format_total_witness:
  "seed_type_accepted TYPE(32)
   \<and> generate_guid (lcg :: (32 word, 32 word) stdlib) (siterate (\<lambda>x. x + 1) 5) [] =
       Some ([0x32, 0x32, 0x5F, 0x7F, 0xE9, 0xE9, 0x32, 0xD2,
              0x34, 0x34, 0xE9, 0x09, 0x03, 0x03, 0x34, 0xD4], siterate (\<lambda>x. x + 1) 9)
   \<and> to_string [0x32, 0x32, 0x5F, 0x7F, 0xE9, 0xE9, 0x32, 0xD2,
                 0x34, 0x34, 0xE9, 0x09, 0x03, 0x03, 0x34, 0xD4] =
       ''32325F7F-E9E9-32D2-3434-E909030334D4''"
proof -
  have guid: "generate_guid (lcg :: (32 word, 32 word) stdlib) (siterate (\<lambda>x. x + 1) 5) [] =
       Some ([0x32, 0x32, 0x5F, 0x7F, 0xE9, 0xE9, 0x32, 0xD2,
              0x34, 0x34, 0xE9, 0x09, 0x03, 0x03, 0x34, 0xD4], siterate (\<lambda>x. x + 1) 9)"
    by (simp add: run)
  have str: "to_string [0x32, 0x32, 0x5F, 0x7F, 0xE9, 0xE9, 0x32, 0xD2,
                 0x34, 0x34, 0xE9, 0x09, 0x03, 0x03, 0x34, 0xD4] =
       ''32325F7F-E9E9-32D2-3434-E909030334D4''"
    by (simp add: to_string_16 hex2_def hex_digit_upper_def)
  show ?thesis
    using generate_and_format_total [OF accepted_32, of lcg "siterate (\<lambda>x. x + 1) 5" "[]"]
      accepted_32 guid str
    by blast
qed

theorem seed_width_static_assert_witness:
  "(instantiate_generate_guid TYPE(16) ::
      build_error + ((16 word, 16 word) stdlib \<Rightarrow> random_device \<Rightarrow> uint8_t list
                       \<Rightarrow> (guid_data_t \<times> random_device) option)) =
     Inl (Static_Assert_Failed ''Seeds need to be at least 32bit.'')
   \<and> (instantiate_generate_guid TYPE(32) ::
      build_error + ((32 word, 32 word) stdlib \<Rightarrow> random_device \<Rightarrow> uint8_t list
                       \<Rightarrow> (guid_data_t \<times> random_device) option)) = Inr generate_guid
   \<and> (instantiate_generate_guid TYPE(64) ::
      build_error + ((64 word, 64 word) stdlib \<Rightarrow> random_device \<Rightarrow> uint8_t list
                       \<Rightarrow> (guid_data_t \<times> random_device) option)) = Inr generate_guid
   \<and> \<not> seed_type_accepted TYPE(31) \<and> seed_type_accepted TYPE(32)"
  using seed_width_static_assert [where 'a = 16 and 'e = "16 word"]
    seed_width_static_assert [where 'a = 32 and 'e = "32 word"]
    seed_width_static_assert [where 'a = 64 and 'e = "64 word"]
    seed_width_static_assert [where 'a = 31 and 'e = "31 word"]
  by simp

end
